theory Spec2Isabelle
  imports Complex_Main
begin

section \<open>Data model of the traffic engine (class TrafficVisualizer of script.js)\<close>

text \<open>
  JavaScript numbers are modelled as exact reals: every statement below is about the
  arithmetic the code writes, without the rounding of IEEE doubles, and without the
  values Infinity and NaN (a road of length 0 is excluded by a hypothesis wherever the
  code divides by the length).  Road identifiers and colours are strings.

  A road object as \<open>addRoad\<close> pushes it.  The field \<open>angle\<close> (\<open>Math.atan2(dy, dx)\<close>) is
  read by the drawing code only and is left out; \<open>id\<close>, \<open>color\<close> and \<open>width\<close> are
  named \<open>road_id\<close>, \<open>road_color\<close> and \<open>road_width\<close>.
\<close>

record road =
  road_id :: string
  x1 :: real
  y1 :: real
  x2 :: real
  y2 :: real
  dx :: real
  dy :: real
  len :: real
  road_color :: string
  road_width :: real
  speedFactor :: real

text \<open>A car object as \<open>spawnCar\<close> pushes it.\<close>

record car =
  roadIndex :: nat
  progress :: real
  color :: string
  speed :: real

text \<open>
  The state of a \<open>TrafficVisualizer\<close>: the two arrays and the three settings of the
  constructor.  The canvas and its drawing context hold no simulation state.  The
  field \<open>onCarFinishRoad\<close> (the router callback, \<open>null\<close> when none is configured) is a
  function on the engine itself, so it is passed to \<open>animate\<close> as a parameter instead
  of being stored in the record.
\<close>

record engine =
  roads :: "road list"
  cars :: "car list"
  carLength :: real
  carWidth :: real
  minGap :: real

text \<open>
  A router receives the car, the identifier of the finished road and the engine; it
  answers with a boolean and may have changed the engine (the router of \<open>initMod2\<close>
  calls \<open>spawnCar\<close>).  The car objects of the source are identified with their slots in
  \<open>cars\<close>: this is exact for every router that leaves the existing cars and their
  slots as they are, as \<open>spawnCar\<close> does, which only appends.
\<close>

type_synonym router = "car \<Rightarrow> string \<Rightarrow> engine \<Rightarrow> bool \<times> engine"

datatype js_error = TypeError

section \<open>Constructor and road registry\<close>

text \<open>The state after \<open>new TrafficVisualizer(canvasId)\<close> for an existing canvas element
  (for a missing one the constructor returns before it creates the arrays).\<close>

definition constructor :: engine where
  "constructor = \<lparr>roads = [], cars = [], carLength = 35, carWidth = 18, minGap = 20\<rparr>"

text \<open>
  \<open>addRoad(id, x1, y1, x2, y2, color = '#bdc3c7', width = 30, initialSpeed = 1.0)\<close>:
  an omitted argument is \<open>None\<close>.
\<close>

definition addRoad ::
  "string \<Rightarrow> real \<Rightarrow> real \<Rightarrow> real \<Rightarrow> real \<Rightarrow> string option \<Rightarrow> real option \<Rightarrow> real option
     \<Rightarrow> engine \<Rightarrow> engine" where
  "addRoad ident px1 py1 px2 py2 col wid initialSpeed e =
     (let ddx = px2 - px1;
          ddy = py2 - py1;
          l = sqrt (ddx * ddx + ddy * ddy)
      in e\<lparr>roads := roads e @
           [\<lparr>road_id = ident, x1 = px1, y1 = py1, x2 = px2, y2 = py2,
             dx = ddx, dy = ddy, len = l,
             road_color = (case col of None \<Rightarrow> ''#bdc3c7'' | Some c \<Rightarrow> c),
             road_width = (case wid of None \<Rightarrow> 30 | Some w \<Rightarrow> w),
             speedFactor = (case initialSpeed of None \<Rightarrow> 1.0 | Some s \<Rightarrow> s)\<rparr>]\<rparr>)"

text \<open>\<open>Array.prototype.findIndex\<close>: the first index whose element satisfies the test;
  \<open>None\<close> stands for the result \<open>-1\<close>.\<close>

fun findIndex :: "('a \<Rightarrow> bool) \<Rightarrow> 'a list \<Rightarrow> nat option" where
  "findIndex P [] = None"
| "findIndex P (x # xs) = (if P x then Some 0 else map_option Suc (findIndex P xs))"

text \<open>
  The direct assignment of \<open>updateMod1\<close>,
  \<open>viz.roads.find(r => r.id === 'A').speedFactor = f\<close>: \<open>find\<close> yields \<open>undefined\<close> when no
  road has the identifier, and the assignment then throws.
\<close>

definition setSpeedFactor :: "string \<Rightarrow> real \<Rightarrow> engine \<Rightarrow> js_error + engine" where
  "setSpeedFactor ident f e =
     (case findIndex (\<lambda>r. road_id r = ident) (roads e) of
        None \<Rightarrow> Inl TypeError
      | Some k \<Rightarrow> Inr (e\<lparr>roads := (roads e)[k := (roads e ! k)\<lparr>speedFactor := f\<rparr>]\<rparr>))"

section \<open>Entry admission: spawnCar\<close>

text \<open>
  The scan of \<open>spawnCar\<close>: \<open>minProg\<close> starts at 1.0 and \<open>lastCar\<close> at \<open>null\<close>; a car of the
  road replaces them when its progress is strictly below \<open>minProg\<close>.
\<close>

fun scanEntrance :: "nat \<Rightarrow> car list \<Rightarrow> real \<times> car option \<Rightarrow> real \<times> car option" where
  "scanEntrance ri [] acc = acc"
| "scanEntrance ri (c # cs) (minProg, lastCar) =
     scanEntrance ri cs
       (if roadIndex c = ri \<and> progress c < minProg then (progress c, Some c)
        else (minProg, lastCar))"

text \<open>
  \<open>spawnCar(roadId, color = '#2980b9', existingCar = null)\<close> returns its boolean and the
  engine after the call.  The function has no statement that can throw.
\<close>

definition spawnCar :: "string \<Rightarrow> string option \<Rightarrow> car option \<Rightarrow> engine \<Rightarrow> bool \<times> engine" where
  "spawnCar roadId col existingCar e =
     (case findIndex (\<lambda>r. road_id r = roadId) (roads e) of
        None \<Rightarrow> (False, e)
      | Some ri \<Rightarrow>
          (let rd = roads e ! ri;
               lastCar = snd (scanEntrance ri (cars e) (1.0, None));
               blocked = (case lastCar of
                            None \<Rightarrow> False
                          | Some lc \<Rightarrow>
                              (let lastCarDist = progress lc * len rd;
                                   requiredSpace = carLength e + minGap e
                               in lastCarDist < requiredSpace))
           in if blocked then (False, e)
              else (True,
                    e\<lparr>cars := cars e @
                       [\<lparr>roadIndex = ri, progress = 0,
                         color = (case existingCar of
                                    Some x \<Rightarrow> color x
                                  | None \<Rightarrow> (case col of None \<Rightarrow> ''#2980b9'' | Some c \<Rightarrow> c)),
                         speed = (case existingCar of Some x \<Rightarrow> speed x | None \<Rightarrow> 0)\<rparr>]\<rparr>)))"

section \<open>The frame: animate\<close>

subsection \<open>Physics pass (step 2 of animate)\<close>

text \<open>
  \<open>roadCars\<close> holds references to the car objects of one road, sorted by descending
  progress (\<open>sort\<close> is stable); here it is the list of their slots in \<open>cars\<close>.
\<close>

definition roadCars_of :: "nat \<Rightarrow> car list \<Rightarrow> nat list" where
  "roadCars_of rIdx cs =
     sort_key (\<lambda>i. - progress (cs ! i))
       (filter (\<lambda>i. roadIndex (cs ! i) = rIdx) [0..<length cs])"

text \<open>
  The body of the inner loop for the car in slot \<open>ci\<close>; \<open>ahead\<close> is the slot of
  \<open>roadCars[i-1]\<close>, \<open>None\<close> for the first car (\<open>roadCars[-1]\<close> is \<open>undefined\<close>).
\<close>

definition follow_car :: "real \<Rightarrow> road \<Rightarrow> nat option \<Rightarrow> nat \<Rightarrow> car list \<Rightarrow> car list" where
  "follow_car cl rd ahead ci cs =
     (let c = cs ! ci;
          targetSpeed = 0.01 * speedFactor rd
      in case ahead of
           None \<Rightarrow> cs[ci := c\<lparr>progress := progress c + targetSpeed\<rparr>]
         | Some ai \<Rightarrow>
             (let myPos = progress c * len rd;
                  aheadPos = progress (cs ! ai) * len rd;
                  dist = aheadPos - myPos;
                  safeDist = cl + 15
              in if dist < safeDist then
                   (let clampedPos = aheadPos - safeDist
                    in cs[ci := c\<lparr>progress := clampedPos / len rd + 0\<rparr>])
                 else if dist < safeDist + 60 then
                   cs[ci := c\<lparr>progress := progress c + targetSpeed * 0.3\<rparr>]
                 else cs[ci := c\<lparr>progress := progress c + targetSpeed\<rparr>]))"

text \<open>
  The progress that the body writes, as a function of the progress it reads: \<open>a\<close> is the
  progress of the car ahead at that moment and \<open>p\<close> the car's own
  (lemma \<open>follow_car_eq\<close> below).
\<close>

definition next_progress :: "real \<Rightarrow> road \<Rightarrow> real option \<Rightarrow> real \<Rightarrow> real" where
  "next_progress cl rd ahead p =
     (let targetSpeed = 0.01 * speedFactor rd
      in case ahead of
           None \<Rightarrow> p + targetSpeed
         | Some a \<Rightarrow>
             (let dist = a * len rd - p * len rd;
                  safeDist = cl + 15
              in if dist < safeDist then (a * len rd - safeDist) / len rd + 0
                 else if dist < safeDist + 60 then p + targetSpeed * 0.3
                 else p + targetSpeed))"

fun follow_loop :: "real \<Rightarrow> road \<Rightarrow> nat option \<Rightarrow> nat list \<Rightarrow> car list \<Rightarrow> car list" where
  "follow_loop cl rd ahead [] cs = cs"
| "follow_loop cl rd ahead (ci # rest) cs =
     follow_loop cl rd (Some ci) rest (follow_car cl rd ahead ci cs)"

text \<open>\<open>this.roads.forEach((road, rIdx) => ...)\<close>, from road index \<open>rIdx\<close> on.\<close>

fun physics_from :: "real \<Rightarrow> nat \<Rightarrow> road list \<Rightarrow> car list \<Rightarrow> car list" where
  "physics_from cl rIdx [] cs = cs"
| "physics_from cl rIdx (rd # rs) cs =
     physics_from cl (Suc rIdx) rs (follow_loop cl rd None (roadCars_of rIdx cs) cs)"

definition physics :: "engine \<Rightarrow> engine" where
  "physics e = e\<lparr>cars := physics_from (carLength e) 0 (roads e) (cars e)\<rparr>"

subsection \<open>Transition pass (step 3 of animate)\<close>

text \<open>\<open>this.cars.splice(i, 1)\<close>.\<close>

fun splice1 :: "nat \<Rightarrow> 'a list \<Rightarrow> 'a list" where
  "splice1 i [] = []"
| "splice1 0 (x # xs) = xs"
| "splice1 (Suc i) (x # xs) = x # splice1 i xs"

text \<open>An array read: \<open>undefined\<close> out of range.\<close>

definition at_index :: "'a list \<Rightarrow> nat \<Rightarrow> 'a option" where
  "at_index xs i = (if i < length xs then Some (xs ! i) else None)"

text \<open>
  The loop \<open>for (let i = this.cars.length - 1; i >= 0; i--)\<close>, with \<open>n\<close> slots still to
  visit (the next one is \<open>n - 1\<close>).  A read of a field of \<open>undefined\<close> throws: \<open>car.roadIndex\<close>
  when the slot is empty, \<open>road.id\<close> before the router is called, \<open>road.x1\<close> when a car that
  stays is drawn.  Drawing changes nothing else.
\<close>

fun transition :: "router option \<Rightarrow> nat \<Rightarrow> engine \<Rightarrow> js_error + engine" where
  "transition R 0 e = Inr e"
| "transition R (Suc i) e =
     (case at_index (cars e) i of
        None \<Rightarrow> Inl TypeError
      | Some c \<Rightarrow>
          (let rd = at_index (roads e) (roadIndex c)
           in if progress c \<ge> 1 then
                (case R of
                   None \<Rightarrow> transition R i (e\<lparr>cars := splice1 i (cars e)\<rparr>)
                 | Some r \<Rightarrow>
                     (case rd of
                        None \<Rightarrow> Inl TypeError
                      | Some rd' \<Rightarrow>
                          (case r c (road_id rd') e of
                             (moved, e') \<Rightarrow>
                               if moved then transition R i (e'\<lparr>cars := splice1 i (cars e')\<rparr>)
                               else transition R i
                                      (e'\<lparr>cars := (cars e')[i := c\<lparr>progress := 1, speed := 0\<rparr>]\<rparr>))))
              else (case rd of
                      None \<Rightarrow> Inl TypeError
                    | Some _ \<Rightarrow> transition R i e)))"

text \<open>One frame.  Step 1 draws the roads; the next frame is requested at the end.\<close>

definition animate :: "router option \<Rightarrow> engine \<Rightarrow> js_error + engine" where
  "animate R e = (let e1 = physics e in transition R (length (cars e1)) e1)"


section \<open>Routers\<close>

text \<open>The router of \<open>initMod2\<close>, for the two values of \<open>m2_shortcut\<close>.\<close>

definition mod2_router :: "bool \<Rightarrow> router" where
  "mod2_router m2_shortcut c finishedRoadId viz =
     (if finishedRoadId = ''Hwy_Top'' \<or> finishedRoadId = ''Connector'' then
        spawnCar ''Single_Top'' (Some (color c)) (Some c) viz
      else if finishedRoadId = ''Single_Bot'' then
        (if m2_shortcut then spawnCar ''Connector'' (Some (color c)) (Some c) viz
         else spawnCar ''Hwy_Bot'' (Some (color c)) (Some c) viz)
      else (True, viz))"

text \<open>A router that only decides, from the car and the finished road, and touches nothing.\<close>

definition pure_router :: "(car \<Rightarrow> string \<Rightarrow> bool) \<Rightarrow> router" where
  "pure_router d c finishedRoadId viz = (d c finishedRoadId, viz)"

text \<open>A router that refuses every car and touches nothing.\<close>

definition refuse_all :: router where
  "refuse_all c finishedRoadId viz = (False, viz)"

text \<open>
  Every car is on a road of the registry.  \<open>spawnCar\<close> only creates such cars, and no
  operation removes a road.
\<close>

definition valid_roads :: "engine \<Rightarrow> bool" where
  "valid_roads e = list_all (\<lambda>c. roadIndex c < length (roads e)) (cars e)"

section \<open>Reachable engine states\<close>

text \<open>
  The states an engine with router \<open>R\<close> can be in between two calls: the constructor's
  state, and every state after a call of \<open>addRoad\<close> or \<open>spawnCar\<close>, after a direct
  assignment to a road's \<open>speedFactor\<close>, or after a frame.
\<close>

inductive reachable :: "router option \<Rightarrow> engine \<Rightarrow> bool" for R :: "router option" where
  reach_new: "reachable R constructor"
| reach_addRoad: "reachable R e \<Longrightarrow> reachable R (addRoad ident px1 py1 px2 py2 col wid sp e)"
| reach_speed: "reachable R e \<Longrightarrow> setSpeedFactor ident f e = Inr e' \<Longrightarrow> reachable R e'"
| reach_spawn: "reachable R e \<Longrightarrow> reachable R (snd (spawnCar roadId col existingCar e))"
| reach_frame: "reachable R e \<Longrightarrow> animate R e = Inr e' \<Longrightarrow> reachable R e'"

section \<open>Concrete scenarios\<close>

text \<open>A road of length 100 with the default speed factor, and one car on it at progress \<open>p\<close>
  (the admission scenario of the specification).\<close>

definition road100 :: engine where
  "road100 = addRoad ''A'' 0 0 100 0 None None None constructor"

definition road100_with :: "real \<Rightarrow> engine" where
  "road100_with p = road100\<lparr>cars := [\<lparr>roadIndex = 0, progress = p, color = ''red'', speed = 0\<rparr>]\<rparr>"

text \<open>A road of length 20 with speed factor 100: a car crosses it in one frame.\<close>

definition short_road :: engine where
  "short_road = addRoad ''A'' 0 0 20 0 None None (Some 100) constructor"

definition pinned_car :: car where
  "pinned_car = \<lparr>roadIndex = 0, progress = 1, color = ''#2980b9'', speed = 0\<rparr>"

text \<open>The short road with one car parked at its end.\<close>

definition short_jam :: engine where
  "short_jam = short_road\<lparr>cars := [pinned_car]\<rparr>"

text \<open>A car on road 0 at progress \<open>p\<close>, with the default colour and speed 0.\<close>

definition car_at :: "real \<Rightarrow> car" where
  "car_at p = \<lparr>roadIndex = 0, progress = p, color = ''#2980b9'', speed = 0\<rparr>"

text \<open>The short road after the next spawn, and one frame later.\<close>

definition short_pair :: engine where
  "short_pair = short_road\<lparr>cars := [pinned_car, car_at 0]\<rparr>"

definition short_negative :: engine where
  "short_negative = short_road\<lparr>cars := [pinned_car, car_at (- 1 / 2)]\<rparr>"

text \<open>A road of length 1000 with the default speed factor and four cars on it, stored
  in another order than their positions.\<close>

definition road1000 :: engine where
  "road1000 = addRoad ''A'' 0 0 1000 0 None None None constructor"

definition queue4 :: engine where
  "queue4 = road1000\<lparr>cars := [car_at 0.4, car_at 0.5, car_at 0.2, car_at 0.47]\<rparr>"

text \<open>
  A road of length 80 with speed factor 50 (a free car covers half of it per frame; the
  product of factor and length, 4000, is that of a road of 1000 with factor 4), and
  states of its queue behind a refused car.
\<close>

definition road80 :: engine where
  "road80 = addRoad ''A'' 0 0 80 0 None None (Some 50) constructor"



definition arrivals :: engine where
  "arrivals = road80\<lparr>cars := [car_at 1.5, car_at 0.5, car_at 1]\<rparr>"

section \<open>The calls of updateSpeed\<close>

text \<open>
  The methods that the body of \<open>class TrafficVisualizer\<close> declares, besides the
  constructor.  The constructor assigns the properties \<open>canvas\<close>, \<open>ctx\<close>, \<open>roads\<close>, \<open>cars\<close>,
  \<open>carLength\<close>, \<open>carWidth\<close>, \<open>minGap\<close>, \<open>onCarFinishRoad\<close> and \<open>animate\<close>, none of them
  under another name.  A property that is neither assigned nor declared is \<open>undefined\<close>.
\<close>

datatype class_method = Resize | AddRoad | SpawnCar | Animate

definition TrafficVisualizer_method :: "string \<Rightarrow> class_method option" where
  "TrafficVisualizer_method name =
     map_of [(''resize'', Resize), (''addRoad'', AddRoad), (''spawnCar'', SpawnCar),
             (''animate'', Animate)] name"

text \<open>
  \<open>updateMod2\<close>: in either branch the first statement that touches the engine is a call
  \<open>viz.updateSpeed('Hwy_Top', ...)\<close>, and calling \<open>undefined\<close> throws a TypeError, which
  ends the function.  The class has no body for the other case, which is therefore
  never taken; the model leaves the engine as it is there.  The updates of the page
  before the call are not modelled.
\<close>

definition updateMod2 :: "bool \<Rightarrow> engine \<Rightarrow> js_error + engine" where
  "updateMod2 m2_shortcut viz =
     (case TrafficVisualizer_method ''updateSpeed'' of
        None \<Rightarrow> Inl TypeError
      | Some m \<Rightarrow> Inr viz)"

section \<open>Evaluation on concrete states\<close>

lemmas model_defs = spawnCar_def animate_def physics_def roadCars_of_def follow_car_def
  at_index_def addRoad_def constructor_def refuse_all_def car_at_def


section \<open>Entry admission\<close>





lemma short_jam_reachable: "reachable (Some refuse_all) short_jam"
proof -
  have "reachable (Some refuse_all) short_road"
    unfolding short_road_def by (rule reach_addRoad) (rule reach_new)
  then have "reachable (Some refuse_all) (snd (spawnCar ''A'' None None short_road))"
    by (rule reach_spawn)
  moreover have "animate (Some refuse_all) (snd (spawnCar ''A'' None None short_road)) =
                   Inr short_jam"
    by (simp add: spawnCar_def animate_def physics_def roadCars_of_def follow_car_def
        at_index_def refuse_all_def short_jam_def pinned_car_def short_road_def addRoad_def
        constructor_def)
  ultimately show ?thesis by (rule reach_frame)
qed

text \<open>
  C8.  A call of \<open>spawnCar\<close> that fails returns \<open>false\<close> and leaves the engine as it was:
  the roads, the car array and every car in it.  This holds for an unknown road
  identifier and for every other failing call (the only other one is the blocked
  entrance).  \<open>spawnCar\<close> has no statement that throws, so its model has no error result.
\<close>

theorem spawnCar_failure_keeps_state:
  "(findIndex (\<lambda>r. road_id r = roadId) (roads e) = None \<longrightarrow>
      spawnCar roadId col existingCar e = (False, e)) \<and>
   (\<not> fst (spawnCar roadId col existingCar e) \<longrightarrow>
      spawnCar roadId col existingCar e = (False, e))"
  by (auto simp: spawnCar_def Let_def split: option.splits)

theorem spawnCar_failure_keeps_state_witness:
  "findIndex (\<lambda>r. road_id r = ''B'') (roads (road100_with 0.5)) = None \<and>
   spawnCar ''B'' None None (road100_with 0.5) = (False, road100_with 0.5) \<and>
   \<not> fst (spawnCar ''A'' (Some ''red'') None (road100_with 0.5)) \<and>
   spawnCar ''A'' (Some ''red'') None (road100_with 0.5) = (False, road100_with 0.5)"
  using spawnCar_failure_keeps_state [of "''B''" "road100_with 0.5" None None]
    spawnCar_failure_keeps_state [of "''A''" "road100_with 0.5" "Some ''red''" None]
  by (simp add: spawnCar_def road100_with_def road100_def addRoad_def constructor_def)







section \<open>The car-following pass\<close>

lemma follow_car_eq:
  "follow_car cl rd ahead ci cs =
     cs[ci := (cs ! ci)\<lparr>progress :=
          next_progress cl rd (map_option (\<lambda>ai. progress (cs ! ai)) ahead) (progress (cs ! ci))\<rparr>]"
  by (cases ahead) (simp_all add: follow_car_def next_progress_def Let_def)

lemma follow_loop_length [simp]: "length (follow_loop cl rd ahead idxs cs) = length cs"
  by (induction idxs arbitrary: ahead cs) (simp_all add: follow_car_eq)

lemma follow_loop_other:
  "j \<notin> set idxs \<Longrightarrow> follow_loop cl rd ahead idxs cs ! j = cs ! j"
  by (induction idxs arbitrary: ahead cs) (auto simp: follow_car_eq)

lemma follow_loop_nth:
  assumes "distinct idxs" and "\<forall>i\<in>set idxs. i < length cs" and "k < length idxs"
    and "\<forall>a. ahead = Some a \<longrightarrow> a \<notin> set idxs"
  shows "follow_loop cl rd ahead idxs cs ! (idxs ! k) =
           (cs ! (idxs ! k))\<lparr>progress :=
              next_progress cl rd
                (if k = 0 then map_option (\<lambda>a. progress (cs ! a)) ahead
                 else Some (progress (follow_loop cl rd ahead idxs cs ! (idxs ! (k - 1)))))
                (progress (cs ! (idxs ! k)))\<rparr>"
  using assms
proof (induction idxs arbitrary: ahead cs k)
  case Nil
  then show ?case by simp
next
  case (Cons ci rest)
  let ?mid = "follow_car cl rd ahead ci cs"
  have ci: "ci < length cs" "ci \<notin> set rest" "distinct rest"
    using Cons.prems by auto
  have len1: "length ?mid = length cs" by (simp add: follow_car_eq)
  have head: "follow_loop cl rd (Some ci) rest ?mid ! ci = ?mid ! ci"
    using ci by (simp add: follow_loop_other)
  show ?case
  proof (cases k)
    case 0
    with head ci show ?thesis by (simp add: follow_car_eq)
  next
    case (Suc k')
    have k': "k' < length rest" using Cons.prems Suc by simp
    have ne: "rest ! k' \<noteq> ci" using ci k' by (metis nth_mem)
    have same: "?mid ! (rest ! k') = cs ! (rest ! k')"
      using ne by (simp add: follow_car_eq)
    have ih: "follow_loop cl rd (Some ci) rest ?mid ! (rest ! k') =
           (?mid ! (rest ! k'))\<lparr>progress :=
              next_progress cl rd
                (if k' = 0 then map_option (\<lambda>a. progress (?mid ! a)) (Some ci)
                 else Some (progress (follow_loop cl rd (Some ci) rest ?mid ! (rest ! (k' - 1)))))
                (progress (?mid ! (rest ! k')))\<rparr>"
      using Cons.prems ci k' len1 by (intro Cons.IH) auto
    show ?thesis
    proof (cases k')
      case 0
      with ih same head Suc show ?thesis by simp
    next
      case (Suc k'')
      with ih same \<open>k = Suc k'\<close> show ?thesis by simp
    qed
  qed
qed

lemma insort_key_cong_on:
  "f x = g x \<Longrightarrow> \<forall>y\<in>set ys. f y = g y \<Longrightarrow> insort_key f x ys = insort_key g x ys"
  by (induction ys) auto

lemma sort_key_cong_on:
  "\<forall>x\<in>set xs. f x = g x \<Longrightarrow> sort_key f xs = sort_key g xs"
  by (induction xs) (auto intro: insort_key_cong_on)

lemma roadCars_of_set [simp]:
  "set (roadCars_of r cs) = {i. i < length cs \<and> roadIndex (cs ! i) = r}"
  by (auto simp: roadCars_of_def)

lemma roadCars_of_distinct [simp]: "distinct (roadCars_of r cs)"
  by (simp add: roadCars_of_def)

lemma roadCars_of_cong:
  assumes "length cs' = length cs"
    and "\<forall>j<length cs. roadIndex (cs' ! j) = roadIndex (cs ! j)"
    and "\<forall>j<length cs. roadIndex (cs ! j) = r \<longrightarrow> progress (cs' ! j) = progress (cs ! j)"
  shows "roadCars_of r cs' = roadCars_of r cs"
proof -
  have f: "filter (\<lambda>i. roadIndex (cs' ! i) = r) [0..<length cs'] =
           filter (\<lambda>i. roadIndex (cs ! i) = r) [0..<length cs]"
    using assms(1,2) by (auto intro: filter_cong)
  show ?thesis
    unfolding roadCars_of_def f using assms(3)
    by (intro sort_key_cong_on) auto
qed

lemma roadCars_of_descending:
  "sorted_wrt (\<lambda>a b. a \<ge> b) (map (\<lambda>i. progress (cs ! i)) (roadCars_of r cs))"
proof -
  have "sorted (map (\<lambda>i. - progress (cs ! i)) (roadCars_of r cs))"
    unfolding roadCars_of_def by (rule sorted_sort_key)
  then show ?thesis
    by (simp add: sorted_wrt_map)
qed

lemma follow_loop_fields:
  "roadIndex (follow_loop cl rd ahead idxs cs ! j) = roadIndex (cs ! j) \<and>
   color (follow_loop cl rd ahead idxs cs ! j) = color (cs ! j) \<and>
   speed (follow_loop cl rd ahead idxs cs ! j) = speed (cs ! j)"
proof (induction idxs arbitrary: ahead cs)
  case Nil
  then show ?case by simp
next
  case (Cons ci rest)
  have "roadIndex (follow_car cl rd ahead ci cs ! j) = roadIndex (cs ! j) \<and>
        color (follow_car cl rd ahead ci cs ! j) = color (cs ! j) \<and>
        speed (follow_car cl rd ahead ci cs ! j) = speed (cs ! j)"
    by (cases "ci < length cs"; cases "j = ci") (simp_all add: follow_car_eq not_less list_update_beyond)
  with Cons.IH [of "Some ci" "follow_car cl rd ahead ci cs"] show ?case by simp
qed

lemma physics_from_length [simp]: "length (physics_from cl rIdx rs cs) = length cs"
  by (induction rs arbitrary: rIdx cs) simp_all

lemma physics_from_fields:
  "roadIndex (physics_from cl rIdx rs cs ! j) = roadIndex (cs ! j) \<and>
   color (physics_from cl rIdx rs cs ! j) = color (cs ! j) \<and>
   speed (physics_from cl rIdx rs cs ! j) = speed (cs ! j)"
  by (induction rs arbitrary: rIdx cs) (simp_all add: follow_loop_fields)

lemma physics_from_other:
  "j < length cs \<Longrightarrow> roadIndex (cs ! j) < rIdx \<or> rIdx + length rs \<le> roadIndex (cs ! j) \<Longrightarrow>
   physics_from cl rIdx rs cs ! j = cs ! j"
proof (induction rs arbitrary: rIdx cs)
  case Nil
  then show ?case by simp
next
  case (Cons rd rs)
  let ?mid = "follow_loop cl rd None (roadCars_of rIdx cs) cs"
  have "j \<notin> set (roadCars_of rIdx cs)" using Cons.prems by auto
  then have same: "?mid ! j = cs ! j" by (rule follow_loop_other)
  have "physics_from cl (Suc rIdx) rs ?mid ! j = ?mid ! j"
    using Cons.prems same by (intro Cons.IH) auto
  with same show ?case by simp
qed

lemma physics_from_nth:
  assumes "r < length rs" and "k < length (roadCars_of (rIdx + r) cs)"
  shows "physics_from cl rIdx rs cs ! (roadCars_of (rIdx + r) cs ! k) =
           (cs ! (roadCars_of (rIdx + r) cs ! k))\<lparr>progress :=
              next_progress cl (rs ! r)
                (if k = 0 then None
                 else Some (progress (physics_from cl rIdx rs cs ! (roadCars_of (rIdx + r) cs ! (k - 1)))))
                (progress (cs ! (roadCars_of (rIdx + r) cs ! k)))\<rparr>"
  using assms
proof (induction rs arbitrary: rIdx cs r)
  case Nil
  then show ?case by simp
next
  case (Cons rd rs)
  let ?here = "roadCars_of rIdx cs"
  let ?mid = "follow_loop cl rd None ?here cs"
  show ?case
  proof (cases r)
    case 0
    let ?idxs = "roadCars_of rIdx cs"
    have k: "k < length ?idxs" using Cons.prems 0 by simp
    have later: "physics_from cl (Suc rIdx) rs ?mid ! j = ?mid ! j" if "j \<in> set ?idxs" for j
    proof -
      from that have "j < length ?mid" "roadIndex (?mid ! j) < Suc rIdx"
        by (auto simp: follow_loop_fields)
      then show ?thesis by (intro physics_from_other) auto
    qed
    have step: "?mid ! (?idxs ! k) =
           (cs ! (?idxs ! k))\<lparr>progress :=
              next_progress cl rd
                (if k = 0 then map_option (\<lambda>a. progress (cs ! a)) None
                 else Some (progress (?mid ! (?idxs ! (k - 1)))))
                (progress (cs ! (?idxs ! k)))\<rparr>"
      using k by (intro follow_loop_nth) auto
    have mem: "?idxs ! k \<in> set ?idxs" using k by (rule nth_mem)
    have mem': "?idxs ! (k - 1) \<in> set ?idxs" using k by (intro nth_mem) simp
    show ?thesis
      using step later [OF mem] later [OF mem'] 0 by simp
  next
    case (Suc r')
    let ?idxs = "roadCars_of (Suc rIdx + r') cs"
    have same_idxs: "roadCars_of (Suc rIdx + r') ?mid = ?idxs"
    proof (rule roadCars_of_cong)
      show "length ?mid = length cs" by simp
      show "\<forall>j<length cs. roadIndex (?mid ! j) = roadIndex (cs ! j)"
        by (simp add: follow_loop_fields)
      show "\<forall>j<length cs. roadIndex (cs ! j) = Suc rIdx + r' \<longrightarrow>
              progress (?mid ! j) = progress (cs ! j)"
        by (auto simp: follow_loop_other)
    qed
    have k: "k < length ?idxs" using Cons.prems Suc by simp
    have r': "r' < length rs" using Cons.prems Suc by simp
    have ih: "physics_from cl (Suc rIdx) rs ?mid ! (?idxs ! k) =
           (?mid ! (?idxs ! k))\<lparr>progress :=
              next_progress cl (rs ! r')
                (if k = 0 then None
                 else Some (progress (physics_from cl (Suc rIdx) rs ?mid ! (?idxs ! (k - 1)))))
                (progress (?mid ! (?idxs ! k)))\<rparr>"
      using Cons.IH [of r' "Suc rIdx" ?mid] r' k same_idxs by simp
    have "?idxs ! k \<in> set ?idxs" using k by (rule nth_mem)
    then have "roadIndex (cs ! (?idxs ! k)) = Suc rIdx + r'"
      unfolding roadCars_of_set by blast
    then have "roadIndex (cs ! (?idxs ! k)) \<noteq> rIdx" by linarith
    then have "?idxs ! k \<notin> set ?here" by simp
    then have "?mid ! (?idxs ! k) = cs ! (?idxs ! k)" by (rule follow_loop_other)
    with ih Suc show ?thesis by simp
  qed
qed

lemma physics_nth:
  assumes "r < length (roads e)" and "k < length (roadCars_of r (cars e))"
  shows "cars (physics e) ! (roadCars_of r (cars e) ! k) =
           (cars e ! (roadCars_of r (cars e) ! k))\<lparr>progress :=
              next_progress (carLength e) (roads e ! r)
                (if k = 0 then None
                 else Some (progress (cars (physics e) ! (roadCars_of r (cars e) ! (k - 1)))))
                (progress (cars e ! (roadCars_of r (cars e) ! k)))\<rparr>"
  using physics_from_nth [of r "roads e" k 0 "cars e" "carLength e"] assms
  by (simp add: physics_def)








text \<open>
  C10.  Within a frame, the pass over a road takes the cars in descending order of their
  progress and writes each new progress at once: what the pass makes of a follower is
  the loop body run on the cars as they were at the start of the frame except that the
  slot of the car ahead already holds its updated value.  The gap test and the clamp
  therefore see the updated position of the car ahead, not the one at the start of the
  frame.
\<close>

theorem follower_reads_updated_leader:
  assumes "r < length (roads e)" and "k < length (roadCars_of r (cars e))" and "0 < k"
  shows "(let lead = roadCars_of r (cars e) ! (k - 1);
              me = roadCars_of r (cars e) ! k;
              after = cars (physics e)
          in progress (cars e ! me) \<le> progress (cars e ! lead) \<and>
             after ! me =
               follow_car (carLength e) (roads e ! r) (Some lead) me
                 ((cars e)[lead := after ! lead]) ! me)"
proof -
  let ?idxs = "roadCars_of r (cars e)"
  let ?lead = "?idxs ! (k - 1)" and ?me = "?idxs ! k"
  have km: "k - 1 < length ?idxs" "k - 1 < k" using assms by simp_all
  have "?lead \<in> set ?idxs" "?me \<in> set ?idxs" using assms km by (simp_all only: nth_mem)
  then have bounds: "?lead < length (cars e)" "?me < length (cars e)" by simp_all
  have "?idxs ! (k - 1) \<noteq> ?idxs ! k"
    using assms km by (simp add: nth_eq_iff_index_eq)
  then have ne: "?lead \<noteq> ?me" .
  have order: "progress (cars e ! ?me) \<le> progress (cars e ! ?lead)"
    using roadCars_of_descending [of "cars e" r] assms km
    by (simp add: sorted_wrt_iff_nth_less)
  have "cars (physics e) ! ?me =
          (cars e ! ?me)\<lparr>progress :=
              next_progress (carLength e) (roads e ! r)
                (Some (progress (cars (physics e) ! ?lead))) (progress (cars e ! ?me))\<rparr>"
    using physics_nth [OF assms(1,2)] assms(3) by simp
  also have "\<dots> = follow_car (carLength e) (roads e ! r) (Some ?lead) ?me
                    ((cars e)[?lead := cars (physics e) ! ?lead]) ! ?me"
    using bounds ne by (simp add: follow_car_eq)
  finally show ?thesis using order by (simp add: Let_def)
qed

text \<open>
  In \<open>queue4\<close> the second car of the order is 30 behind the first at the start of the
  frame; it is clamped to 0.46, 50 behind the updated leader, where a pass on the
  positions of the start of the frame would have put it at 0.45.
\<close>

theorem follower_reads_updated_leader_witness:
  "0 < length (roads queue4) \<and> 1 < length (roadCars_of 0 (cars queue4)) \<and>
   roadCars_of 0 (cars queue4) ! 0 = 1 \<and> roadCars_of 0 (cars queue4) ! 1 = 3 \<and>
   cars (physics queue4) ! 3 =
     follow_car (carLength queue4) (roads queue4 ! 0) (Some 1) 3
       ((cars queue4)[1 := cars (physics queue4) ! 1]) ! 3 \<and>
   progress (cars (physics queue4) ! 3) = 0.46 \<and>
   progress (follow_car (carLength queue4) (roads queue4 ! 0) (Some 1) 3 (cars queue4) ! 3) = 0.45"
  using follower_reads_updated_leader [of 0 queue4 1]
  by (simp add: model_defs queue4_def road1000_def)






section \<open>The transition pass\<close>

lemma splice1_eq: "splice1 i xs = take i xs @ drop (Suc i) xs"
  by (induction i xs rule: splice1.induct) simp_all

lemma valid_roads_cars:
  "valid_roads e \<Longrightarrow> set cs \<subseteq> set (cars e) \<Longrightarrow> valid_roads (e\<lparr>cars := cs\<rparr>)"
  by (auto simp: valid_roads_def list_all_iff)

lemma transition_no_router:
  assumes "valid_roads e" and "n \<le> length (cars e)"
  shows "transition None n e =
           Inr (e\<lparr>cars := filter (\<lambda>c. \<not> 1 \<le> progress c) (take n (cars e)) @ drop n (cars e)\<rparr>)"
  using assms
proof (induction n arbitrary: e)
  case 0
  then show ?case by simp
next
  case (Suc i)
  let ?c = "cars e ! i"
  have i: "i < length (cars e)" using Suc.prems by simp
  then have c_in: "?c \<in> set (cars e)" by simp
  then have rd: "roadIndex ?c < length (roads e)"
    using Suc.prems(1) by (simp add: valid_roads_def list_all_iff)
  have tk: "take (Suc i) (cars e) = take i (cars e) @ [?c]"
    using i by (simp add: take_Suc_conv_app_nth)
  show ?case
  proof (cases "1 \<le> progress ?c")
    case True
    let ?e1 = "e\<lparr>cars := splice1 i (cars e)\<rparr>"
    have "set (splice1 i (cars e)) \<subseteq> set (cars e)"
      by (auto simp: splice1_eq dest: in_set_takeD in_set_dropD)
    then have v1: "valid_roads ?e1" by (rule valid_roads_cars [OF Suc.prems(1)])
    have l1: "i \<le> length (cars ?e1)" using i by (simp add: splice1_eq)
    have "transition None (Suc i) e = transition None i ?e1"
      using i True by (simp add: at_index_def)
    also have "\<dots> = Inr (?e1\<lparr>cars := filter (\<lambda>c. \<not> 1 \<le> progress c) (take i (cars ?e1)) @
                                      drop i (cars ?e1)\<rparr>)"
      using v1 l1 by (rule Suc.IH)
    also have "\<dots> = Inr (e\<lparr>cars := filter (\<lambda>c. \<not> 1 \<le> progress c) (take (Suc i) (cars e)) @
                                    drop (Suc i) (cars e)\<rparr>)"
      using i True by (simp add: splice1_eq tk min_def)
    finally show ?thesis .
  next
    case False
    have "transition None (Suc i) e = transition None i e"
      using i False rd by (simp add: at_index_def)
    also have "\<dots> = Inr (e\<lparr>cars := filter (\<lambda>c. \<not> 1 \<le> progress c) (take i (cars e)) @
                                    drop i (cars e)\<rparr>)"
      using Suc.prems i by (intro Suc.IH) simp_all
    also have "\<dots> = Inr (e\<lparr>cars := filter (\<lambda>c. \<not> 1 \<le> progress c) (take (Suc i) (cars e)) @
                                    drop (Suc i) (cars e)\<rparr>)"
      using i False by (simp add: tk Cons_nth_drop_Suc)
    finally show ?thesis .
  qed
qed

text \<open>What the transition pass makes of one car when the router only decides.\<close>

lemma transition_pure_router:
  assumes "valid_roads e" and "n \<le> length (cars e)"
  shows "transition (Some (pure_router d)) n e =
           Inr (e\<lparr>cars :=
                  concat (map (\<lambda>c. if 1 \<le> progress c
                                    then (if d c (road_id (roads e ! roadIndex c)) then []
                                          else [c\<lparr>progress := 1, speed := 0\<rparr>])
                                    else [c])
                          (take n (cars e))) @ drop n (cars e)\<rparr>)"
  using assms
proof (induction n arbitrary: e)
  case 0
  then show ?case by simp
next
  case (Suc i)
  let ?c = "cars e ! i"
  let ?out = "\<lambda>rs c. if 1 \<le> progress c
                      then (if d c (road_id (rs ! roadIndex c)) then []
                            else [c\<lparr>progress := 1, speed := 0\<rparr>])
                      else [c]"
  have i: "i < length (cars e)" using Suc.prems by simp
  then have c_in: "?c \<in> set (cars e)" by simp
  then have rd: "roadIndex ?c < length (roads e)"
    using Suc.prems(1) by (simp add: valid_roads_def list_all_iff)
  have tk: "take (Suc i) (cars e) = take i (cars e) @ [?c]"
    using i by (simp add: take_Suc_conv_app_nth)
  show ?case
  proof (cases "1 \<le> progress ?c")
    case True
    show ?thesis
    proof (cases "d ?c (road_id (roads e ! roadIndex ?c))")
      case moved: True
      let ?e1 = "e\<lparr>cars := splice1 i (cars e)\<rparr>"
      have "set (splice1 i (cars e)) \<subseteq> set (cars e)"
        by (auto simp: splice1_eq dest: in_set_takeD in_set_dropD)
      then have v1: "valid_roads ?e1" by (rule valid_roads_cars [OF Suc.prems(1)])
      have l1: "i \<le> length (cars ?e1)" using i by (simp add: splice1_eq)
      have "transition (Some (pure_router d)) (Suc i) e = transition (Some (pure_router d)) i ?e1"
        using i True moved rd by (simp add: at_index_def pure_router_def)
      also have "\<dots> = Inr (?e1\<lparr>cars := concat (map (?out (roads ?e1)) (take i (cars ?e1))) @
                                        drop i (cars ?e1)\<rparr>)"
        using v1 l1 by (rule Suc.IH)
      also have "\<dots> = Inr (e\<lparr>cars := concat (map (?out (roads e)) (take (Suc i) (cars e))) @
                                      drop (Suc i) (cars e)\<rparr>)"
        using i True moved by (simp add: splice1_eq tk min_def cong: if_cong)
      finally show ?thesis .
    next
      case stays: False
      let ?e1 = "e\<lparr>cars := (cars e)[i := ?c\<lparr>progress := 1, speed := 0\<rparr>]\<rparr>"
      have v1: "valid_roads ?e1"
        using Suc.prems(1) rd
        by (auto simp: valid_roads_def list_all_iff dest!: set_update_subset_insert [THEN subsetD])
      have l1: "i \<le> length (cars ?e1)" using i by simp
      have "transition (Some (pure_router d)) (Suc i) e = transition (Some (pure_router d)) i ?e1"
        using i True stays rd by (simp add: at_index_def pure_router_def)
      also have "\<dots> = Inr (?e1\<lparr>cars := concat (map (?out (roads ?e1)) (take i (cars ?e1))) @
                                        drop i (cars ?e1)\<rparr>)"
        using v1 l1 by (rule Suc.IH)
      also have "\<dots> = Inr (e\<lparr>cars := concat (map (?out (roads e)) (take (Suc i) (cars e))) @
                                      drop (Suc i) (cars e)\<rparr>)"
        using i True stays by (simp add: tk Cons_nth_drop_Suc [symmetric] cong: if_cong)
      finally show ?thesis .
    qed
  next
    case False
    have "transition (Some (pure_router d)) (Suc i) e = transition (Some (pure_router d)) i e"
      using i False rd by (simp add: at_index_def)
    also have "\<dots> = Inr (e\<lparr>cars := concat (map (?out (roads e)) (take i (cars e))) @
                                    drop i (cars e)\<rparr>)"
      using Suc.prems i by (intro Suc.IH) simp_all
    also have "\<dots> = Inr (e\<lparr>cars := concat (map (?out (roads e)) (take (Suc i) (cars e))) @
                                    drop (Suc i) (cars e)\<rparr>)"
      using i False by (simp add: tk Cons_nth_drop_Suc)
    finally show ?thesis .
  qed
qed

lemma valid_roads_nth:
  "valid_roads e = (\<forall>j<length (cars e). roadIndex (cars e ! j) < length (roads e))"
  by (simp add: valid_roads_def list_all_length)

lemma physics_simps [simp]:
  "roads (physics e) = roads e" "length (cars (physics e)) = length (cars e)"
  "carLength (physics e) = carLength e"
  "roadIndex (cars (physics e) ! j) = roadIndex (cars e ! j)"
  "speed (cars (physics e) ! j) = speed (cars e ! j)"
  "color (cars (physics e) ! j) = color (cars e ! j)"
  by (simp_all add: physics_def physics_from_fields)

lemma valid_roads_physics [simp]: "valid_roads (physics e) = valid_roads e"
  by (simp add: valid_roads_nth)

lemma transition_visit:
  assumes "i < length (cars e)" and "1 \<le> progress (cars e ! i)"
    and "roadIndex (cars e ! i) < length (roads e)"
  shows "transition (Some r) (Suc i) e =
           (case r (cars e ! i) (road_id (roads e ! roadIndex (cars e ! i))) e of
              (moved, e') \<Rightarrow>
                if moved
                then transition (Some r) i (e'\<lparr>cars := take i (cars e') @ drop (Suc i) (cars e')\<rparr>)
                else transition (Some r) i
                       (e'\<lparr>cars := (cars e')[i := (cars e ! i)\<lparr>progress := 1, speed := 0\<rparr>]\<rparr>))"
  using assms by (simp add: at_index_def splice1_eq split: prod.splits)

lemma spawnCar_appends:
  "roads (snd (spawnCar roadId col existingCar e)) = roads e \<and>
   (\<exists>new. cars (snd (spawnCar roadId col existingCar e)) = cars e @ new)"
  by (auto simp: spawnCar_def Let_def split: option.splits)

text \<open>The router of \<open>initMod2\<close> leaves the roads and the existing slots of the cars in place.\<close>

lemma mod2_router_appends:
  "roads (snd (mod2_router m2_shortcut c finishedRoadId e)) = roads e \<and>
   (\<exists>new. cars (snd (mod2_router m2_shortcut c finishedRoadId e)) = cars e @ new)"
  unfolding mod2_router_def using spawnCar_appends by simp

text \<open>
  C3.  The transition pass of a frame, on an engine whose cars are all on roads of the
  registry.  With no router, every car whose progress is 1 or more is removed and the
  others stay as they are.  With a router that only decides, a car whose progress is 1 or
  more is removed when the router answers true for the car and the identifier of its
  road, and is kept with progress exactly 1 and speed 0 when it answers false; the
  others stay as they are.  With any router, the visit of a car whose progress is 1 or
  more calls the router and goes on with the car removed from the router's resulting
  state when the answer is true, and with the car's progress set to 1 and its speed to 0
  when it is false.
\<close>

theorem transition_pass:
  assumes "valid_roads e"
  shows "transition None (length (cars e)) e =
           Inr (e\<lparr>cars := filter (\<lambda>c. \<not> 1 \<le> progress c) (cars e)\<rparr>) \<and>
         transition (Some (pure_router d)) (length (cars e)) e =
           Inr (e\<lparr>cars :=
                  concat (map (\<lambda>c. if 1 \<le> progress c
                                    then (if d c (road_id (roads e ! roadIndex c)) then []
                                          else [c\<lparr>progress := 1, speed := 0\<rparr>])
                                    else [c])
                          (cars e))\<rparr>) \<and>
         (\<forall>r i. i < length (cars e) \<and> 1 \<le> progress (cars e ! i) \<longrightarrow>
            transition (Some r) (Suc i) e =
              (case r (cars e ! i) (road_id (roads e ! roadIndex (cars e ! i))) e of
                 (moved, e') \<Rightarrow>
                   if moved
                   then transition (Some r) i
                          (e'\<lparr>cars := take i (cars e') @ drop (Suc i) (cars e')\<rparr>)
                   else transition (Some r) i
                          (e'\<lparr>cars := (cars e')[i := (cars e ! i)\<lparr>progress := 1, speed := 0\<rparr>]\<rparr>)))"
proof (intro conjI allI impI)
  show "transition None (length (cars e)) e =
          Inr (e\<lparr>cars := filter (\<lambda>c. \<not> 1 \<le> progress c) (cars e)\<rparr>)"
    using transition_no_router [OF assms, of "length (cars e)"] by simp
  show "transition (Some (pure_router d)) (length (cars e)) e =
           Inr (e\<lparr>cars :=
                  concat (map (\<lambda>c. if 1 \<le> progress c
                                    then (if d c (road_id (roads e ! roadIndex c)) then []
                                          else [c\<lparr>progress := 1, speed := 0\<rparr>])
                                    else [c])
                          (cars e))\<rparr>)"
    using transition_pure_router [OF assms, of "length (cars e)" d] by simp
next
  fix r i
  assume a: "i < length (cars e) \<and> 1 \<le> progress (cars e ! i)"
  then have "roadIndex (cars e ! i) < length (roads e)"
    using assms by (simp add: valid_roads_nth)
  with a show "transition (Some r) (Suc i) e =
              (case r (cars e ! i) (road_id (roads e ! roadIndex (cars e ! i))) e of
                 (moved, e') \<Rightarrow>
                   if moved
                   then transition (Some r) i
                          (e'\<lparr>cars := take i (cars e') @ drop (Suc i) (cars e')\<rparr>)
                   else transition (Some r) i
                          (e'\<lparr>cars := (cars e')[i := (cars e ! i)\<lparr>progress := 1, speed := 0\<rparr>]\<rparr>))"
    by (intro transition_visit) simp_all
qed

theorem transition_pass_witness:
  "valid_roads arrivals \<and>
   transition None (length (cars arrivals)) arrivals = Inr (arrivals\<lparr>cars := [car_at 0.5]\<rparr>) \<and>
   transition (Some (pure_router (\<lambda>c r. progress c = 1))) (length (cars arrivals)) arrivals =
     Inr (arrivals\<lparr>cars := [car_at 1, car_at 0.5]\<rparr>) \<and>
   0 < length (cars arrivals) \<and> 1 \<le> progress (cars arrivals ! 0) \<and>
   transition (Some refuse_all) (Suc 0) arrivals =
     Inr (arrivals\<lparr>cars := [car_at 1, car_at 0.5, car_at 1]\<rparr>)"
  using transition_pass [of arrivals "\<lambda>c r. progress c = 1"]
  by (simp add: model_defs arrivals_def road80_def valid_roads_def pure_router_def)


section \<open>Cars the router refuses\<close>


















section \<open>Negative progress\<close>

text \<open>
  C9.  A reachable state in which the clamp writes a negative progress: on the road of
  length 20, a car is parked at the end (the router refuses it) and the next car is
  admitted at progress 0.  In the next frame the gap to the car ahead is 40, below
  \<open>safeDist = 50\<close>, and the clamp puts the follower at position
  \<open>40 - 50\<close>, that is at progress \<open>- 1 / 2\<close>.  Nothing brings it back to 0: the state after
  the frame keeps the value, and so does the frame after it.
\<close>

theorem clamp_drives_progress_negative:
  "reachable (Some refuse_all) short_pair \<and>
   roadCars_of 0 (cars short_pair) = [0, 1] \<and>
   (progress (cars (physics short_pair) ! 0) - progress (cars short_pair ! 1)) *
     len (roads short_pair ! 0) < carLength short_pair + 15 \<and>
   progress (cars (physics short_pair) ! 1) =
     (progress (cars (physics short_pair) ! 0) * len (roads short_pair ! 0) -
        (carLength short_pair + 15)) / len (roads short_pair ! 0) \<and>
   animate (Some refuse_all) short_pair = Inr short_negative \<and>
   reachable (Some refuse_all) short_negative \<and>
   progress (cars short_negative ! 1) < 0 \<and>
   animate (Some refuse_all) short_negative =
     Inr (short_road\<lparr>cars := [pinned_car, car_at (- 1 / 5)]\<rparr>)"
proof -
  have pair: "snd (spawnCar ''A'' None None short_jam) = short_pair"
    by (simp add: model_defs short_road_def short_jam_def pinned_car_def short_pair_def
        short_negative_def)
  have r1: "reachable (Some refuse_all) short_pair"
    using reach_spawn [OF short_jam_reachable, of "''A''" None None] by (simp only: pair)
  have run: "animate (Some refuse_all) short_pair = Inr short_negative"
    by (simp add: model_defs short_road_def short_jam_def pinned_car_def short_pair_def
        short_negative_def)
  have r2: "reachable (Some refuse_all) short_negative"
    using r1 run by (rule reach_frame)
  have rest: "roadCars_of 0 (cars short_pair) = [0, 1] \<and>
   (progress (cars (physics short_pair) ! 0) - progress (cars short_pair ! 1)) *
     len (roads short_pair ! 0) < carLength short_pair + 15 \<and>
   progress (cars (physics short_pair) ! 1) =
     (progress (cars (physics short_pair) ! 0) * len (roads short_pair ! 0) -
        (carLength short_pair + 15)) / len (roads short_pair ! 0) \<and>
   progress (cars short_negative ! 1) < 0 \<and>
   animate (Some refuse_all) short_negative =
     Inr (short_road\<lparr>cars := [pinned_car, car_at (- 1 / 5)]\<rparr>)"
    by (simp add: model_defs short_road_def short_jam_def pinned_car_def short_pair_def
        short_negative_def)
  from r1 run r2 rest show ?thesis by simp
qed

theorem clamp_drives_progress_negative_witness:
  "\<exists>e i. reachable (Some refuse_all) e \<and> i < length (cars e) \<and> progress (cars e ! i) < 0"
  using clamp_drives_progress_negative
  by (intro exI [of _ short_negative] exI [of _ 1])
     (simp add: model_defs short_road_def short_jam_def pinned_car_def short_pair_def
        short_negative_def)

section \<open>updateSpeed\<close>

text \<open>
  C4.  The class declares no method \<open>updateSpeed\<close>: the property is \<open>undefined\<close> on every
  \<open>TrafficVisualizer\<close>, and \<open>updateMod2\<close>, which calls it, ends with a TypeError whatever the
  engine and the state of the shortcut.  No road's \<open>speedFactor\<close> is set by such a call.
\<close>

theorem updateSpeed_is_not_a_method:
  "TrafficVisualizer_method ''updateSpeed'' = None \<and> updateMod2 m2_shortcut viz = Inl TypeError"
  by (simp add: TrafficVisualizer_method_def updateMod2_def)


end
